theory Spec2Isabelle
  imports Main "HOL-Library.Multiset"
begin

section \<open>Data model\<close>

text \<open>
  The program is \<^verbatim>\<open>src/main.go\<close>, in its last revision (the one with \<^verbatim>\<open>getComments\<close> and the
  per-thread cache file). Identifiers are \<^verbatim>\<open>float64\<close> in the source; no function of the
  program computes with them (they are decoded, formatted into a URL and encoded), so the
  model keeps the type of identifiers as the type variable \<open>'f\<close>. Strings are byte strings.
\<close>

record 'f hnThread =
  Kids :: "'f list"

record 'f hnComment =
  By :: string
  ID :: 'f
  Parent :: 'f
  Text :: string

type_synonym filterFunction = "string \<Rightarrow> bool"

section \<open>The functions of package \<^verbatim>\<open>strings\<close> and \<^verbatim>\<open>strconv\<close> that the program calls\<close>

text \<open>
  \<^verbatim>\<open>strings.ToLower\<close>: on a string of ASCII bytes every byte in \<^verbatim>\<open>'A'..'Z'\<close> gets
  \<^verbatim>\<open>'a' - 'A'\<close> added; a string with a byte from \<^verbatim>\<open>0x80\<close> on is mapped rune by rune through
  the Unicode tables, which are not part of the repository: that case is the parameter
  \<open>unicodeLower\<close>.
\<close>

definition lowerASCII :: "char \<Rightarrow> char" where
  "lowerASCII c =
     (if (65::nat) \<le> of_char c \<and> of_char c \<le> (90::nat)
      then char_of (of_char c + (32::nat)) else c)"

definition ToLower :: "(string \<Rightarrow> string) \<Rightarrow> string \<Rightarrow> string" where
  "ToLower unicodeLower s =
     (if list_all (\<lambda>c. of_char c < (128::nat)) s then map lowerASCII s else unicodeLower s)"

text \<open>\<^verbatim>\<open>strings.HasPrefix\<close> and \<^verbatim>\<open>strings.Contains\<close> (a byte-wise search from every offset).\<close>

definition HasPrefix :: "string \<Rightarrow> string \<Rightarrow> bool" where
  "HasPrefix s pre = (length pre \<le> length s \<and> take (length pre) s = pre)"

fun Contains :: "string \<Rightarrow> string \<Rightarrow> bool" where
  "Contains [] substr = (substr = [])"
| "Contains (c # cs) substr = (HasPrefix (c # cs) substr \<or> Contains cs substr)"

text \<open>
  \<^verbatim>\<open>strings.Split(s, sep)\<close> for a separator of one byte, which is how \<^verbatim>\<open>main\<close> calls it
  (\<^verbatim>\<open>" "\<close>): the fields between the separators, empty fields included, so the result of
  splitting a string with \<open>n\<close> separators has \<open>n + 1\<close> fields.
\<close>

fun splitOn :: "char \<Rightarrow> string \<Rightarrow> string \<Rightarrow> string list" where
  "splitOn sep cur [] = [cur]"
| "splitOn sep cur (c # cs) =
     (if c = sep then cur # splitOn sep [] cs else splitOn sep (cur @ [c]) cs)"

definition Split :: "string \<Rightarrow> char \<Rightarrow> string list" where
  "Split s sep = splitOn sep [] s"

text \<open>\<^verbatim>\<open>strconv.Itoa\<close>: the decimal digits of an integer, with a minus sign when negative.\<close>

definition digit :: "int \<Rightarrow> char" where
  "digit d = char_of (48 + d)"

function digits :: "int \<Rightarrow> string" where
  "digits n = (if n < 10 then [digit n] else digits (n div 10) @ [digit (n mod 10)])"
  by pat_completeness auto
termination
  by (relation "measure nat") auto

declare digits.simps [simp del]

definition Itoa :: "int \<Rightarrow> string" where
  "Itoa i = (if i < 0 then CHR ''-'' # digits (- i) else digits i)"

section \<open>The text filter\<close>

text \<open>
  \<^verbatim>\<open>filterTextFromKeywords\<close> returns a closure: it lower-cases the text, then runs over the
  keywords as they were given and returns at the first one that the lower-cased text
  contains.
\<close>

fun keywordLoop :: "string \<Rightarrow> string list \<Rightarrow> bool" where
  "keywordLoop lowerText [] = False"
| "keywordLoop lowerText (keyword # keywords) =
     (if Contains lowerText keyword then True else keywordLoop lowerText keywords)"

definition filterTextFromKeywords :: "(string \<Rightarrow> string) \<Rightarrow> string list \<Rightarrow> filterFunction" where
  "filterTextFromKeywords unicodeLower keywords =
     (\<lambda>text. let lowerText = ToLower unicodeLower text in keywordLoop lowerText keywords)"

text \<open>
  The choice of the filter in \<^verbatim>\<open>main\<close>: with an empty \<^verbatim>\<open>-keywords\<close> value the filter accepts
  every text, otherwise the value is split at spaces.
\<close>

definition selectFilter :: "(string \<Rightarrow> string) \<Rightarrow> string \<Rightarrow> filterFunction" where
  "selectFilter unicodeLower keywordsStr =
     (if length keywordsStr = 0 then (\<lambda>text. True)
      else filterTextFromKeywords unicodeLower (Split keywordsStr CHR '' ''))"

text \<open>The filtering loop of \<^verbatim>\<open>main\<close>: it appends the accepted comments to an empty slice.\<close>

fun filterLoop :: "filterFunction \<Rightarrow> 'f hnComment list \<Rightarrow> 'f hnComment list \<Rightarrow> 'f hnComment list" where
  "filterLoop flt filteredComments [] = filteredComments"
| "filterLoop flt filteredComments (c # comments) =
     (if flt (Text c) then filterLoop flt (filteredComments @ [c]) comments
      else filterLoop flt filteredComments comments)"

definition filterComments :: "filterFunction \<Rightarrow> 'f hnComment list \<Rightarrow> 'f hnComment list" where
  "filterComments flt comments = filterLoop flt [] comments"

section \<open>The process, its environment and the world it changes\<close>

text \<open>
  \<^verbatim>\<open>log.Fatalln\<close> prints its argument and ends the process with status 1, from whichever
  goroutine calls it. A function of the program therefore either returns a value or ends
  the process; both come with the world as it is at that moment.
\<close>

datatype error = Error string

datatype 'a outcome = Return 'a | Exit nat

datatype statResult = StatOk | NotExist | StatErr error

text \<open>An open \<^verbatim>\<open>*os.File\<close>: standard output, or the file at the path it was created at.\<close>

datatype osFile = Stdout | File string

record world =
  files :: "string \<rightharpoonup> string"
  dirs :: "string set"
  stdout :: string
  requests :: "string list"
  logged :: "string list"

text \<open>
  What the program obtains from outside \<^verbatim>\<open>main.go\<close> is a parameter of the model:
  the remote server (\<open>httpGet\<close>, \<open>readAll\<close>), the codec of \<^verbatim>\<open>encoding/json\<close> at the three
  types it is used at, \<^verbatim>\<open>html.UnescapeString\<close>, the formatting of an identifier into the item
  URL (\<^verbatim>\<open>fmt.Sprintf(urlToFormat, id)\<close>), the conversion \<^verbatim>\<open>float64(threadID)\<close>, the home
  directory of \<^verbatim>\<open>user.Current()\<close>, the failures of the operating system (an error of
  \<^verbatim>\<open>os.Stat\<close> other than "does not exist", of \<^verbatim>\<open>os.Create\<close>, \<^verbatim>\<open>os.MkdirAll\<close> and of a write),
  and the order in which the goroutines of \<^verbatim>\<open>fetchFromAPI\<close> deliver (\<open>schedule\<close>). The
  theorems hold for every environment.
\<close>

record 'f env =
  httpGet :: "string \<Rightarrow> error + string"
  readAll :: "string \<Rightarrow> error + string"
  unmarshalThread :: "string \<Rightarrow> error + 'f hnThread"
  unmarshalComment :: "string \<Rightarrow> error + 'f hnComment"
  decodeComments :: "string \<Rightarrow> error + 'f hnComment list"
  encodeComments :: "'f hnComment list \<Rightarrow> error + string"
  UnescapeString :: "string \<Rightarrow> string"
  formatURL :: "'f \<Rightarrow> string"
  float64 :: "int \<Rightarrow> 'f"
  currentHomeDir :: "error + string"
  statError :: "string \<Rightarrow> error option"
  createError :: "string \<Rightarrow> error option"
  mkdirError :: "string \<Rightarrow> error option"
  writeError :: "osFile \<Rightarrow> error option"
  unicodeLower :: "string \<Rightarrow> string"
  schedule :: "nat list"

type_synonym 'a proc = "world \<Rightarrow> 'a outcome \<times> world"

definition andThen :: "'a proc \<Rightarrow> ('a \<Rightarrow> 'b proc) \<Rightarrow> 'b proc" where
  "andThen m k w = (case m w of (Return a, w') \<Rightarrow> k a w' | (Exit n, w') \<Rightarrow> (Exit n, w'))"

definition Println :: "string \<Rightarrow> world \<Rightarrow> world" where
  "Println line w = w\<lparr>logged := logged w @ [line]\<rparr>"

definition Fatalln :: "error \<Rightarrow> 'a proc" where
  "Fatalln e w = (case e of Error msg \<Rightarrow> (Exit 1, Println msg w))"

definition ret :: "'a \<Rightarrow> 'a proc" where
  "ret a w = (Return a, w)"

definition logLine :: "string \<Rightarrow> unit proc" where
  "logLine line w = (Return (), Println line w)"

text \<open>\<^verbatim>\<open>fatalnWrapper\<close>, on the pair of a value and an error that the Go call returned.\<close>

definition fatalnWrapper :: "error + 'a \<Rightarrow> 'a proc" where
  "fatalnWrapper r w = (case r of Inl err \<Rightarrow> Fatalln err w | Inr a \<Rightarrow> (Return a, w))"

subsection \<open>The operating system\<close>

definition Stat :: "'f env \<Rightarrow> string \<Rightarrow> world \<Rightarrow> statResult" where
  "Stat env name w =
     (case statError env name of
        Some err \<Rightarrow> StatErr err
      | None \<Rightarrow> if name \<in> dom (files w) \<or> name \<in> dirs w then StatOk else NotExist)"

text \<open>\<^verbatim>\<open>os.Create\<close> creates the file, or truncates it when it exists.\<close>

definition Create :: "'f env \<Rightarrow> string \<Rightarrow> world \<Rightarrow> (error + osFile) \<times> world" where
  "Create env name w =
     (case createError env name of
        Some err \<Rightarrow> (Inl err, w)
      | None \<Rightarrow> (Inr (File name), w\<lparr>files := (files w)(name \<mapsto> [])\<rparr>))"

definition MkdirAll :: "'f env \<Rightarrow> string \<Rightarrow> world \<Rightarrow> (error + unit) \<times> world" where
  "MkdirAll env name w =
     (case mkdirError env name of
        Some err \<Rightarrow> (Inl err, w)
      | None \<Rightarrow> (Inr (), w\<lparr>dirs := insert name (dirs w)\<rparr>))"

text \<open>The bytes that a read from the start of an open file yields.\<close>

definition contents :: "osFile \<Rightarrow> world \<Rightarrow> string" where
  "contents f w = (case f of Stdout \<Rightarrow> [] | File name \<Rightarrow> (case files w name of None \<Rightarrow> [] | Some bytes \<Rightarrow> bytes))"

definition Write :: "'f env \<Rightarrow> osFile \<Rightarrow> string \<Rightarrow> world \<Rightarrow> (error + unit) \<times> world" where
  "Write env f bytes w =
     (case writeError env f of
        Some err \<Rightarrow> (Inl err, w)
      | None \<Rightarrow>
          (case f of
             Stdout \<Rightarrow> (Inr (), w\<lparr>stdout := stdout w @ bytes\<rparr>)
           | File name \<Rightarrow> (Inr (), w\<lparr>files := (files w)(name \<mapsto> contents f w @ bytes)\<rparr>)))"

text \<open>\<^verbatim>\<open>json.NewEncoder(f).Encode(comments)\<close>: encode, then write the bytes to the file.\<close>

definition Encode :: "'f env \<Rightarrow> osFile \<Rightarrow> 'f hnComment list \<Rightarrow> world \<Rightarrow> (error + unit) \<times> world" where
  "Encode env f comments w =
     (case encodeComments env comments of
        Inl err \<Rightarrow> (Inl err, w)
      | Inr bytes \<Rightarrow> Write env f bytes w)"

text \<open>The calls whose error goes to \<^verbatim>\<open>fatalnWrapper\<close> (or to \<^verbatim>\<open>log.Fatalln\<close>) in the next line.\<close>

definition createOrFatal :: "'f env \<Rightarrow> string \<Rightarrow> osFile proc" where
  "createOrFatal env name w = (case Create env name w of (r, w') \<Rightarrow> fatalnWrapper r w')"

definition mkdirAllOrFatal :: "'f env \<Rightarrow> string \<Rightarrow> unit proc" where
  "mkdirAllOrFatal env name w = (case MkdirAll env name w of (r, w') \<Rightarrow> fatalnWrapper r w')"

definition encodeOrFatal :: "'f env \<Rightarrow> osFile \<Rightarrow> 'f hnComment list \<Rightarrow> unit proc" where
  "encodeOrFatal env f comments w = (case Encode env f comments w of (r, w') \<Rightarrow> fatalnWrapper r w')"

text \<open>A request that a goroutine sends is recorded in the world.\<close>

definition request :: "string \<Rightarrow> world \<Rightarrow> world" where
  "request url w = w\<lparr>requests := requests w @ [url]\<rparr>"

subsection \<open>Fetching from the remote server\<close>

text \<open>
  \<^verbatim>\<open>getComment\<close> up to its send on the channel: \<open>Inr\<close> is the comment it sends, \<open>Inl\<close> the
  error it calls \<^verbatim>\<open>log.Fatalln\<close> with.
\<close>

definition getComment :: "'f env \<Rightarrow> string \<Rightarrow> error + 'f hnComment" where
  "getComment env url =
     (case httpGet env url of
        Inl err \<Rightarrow> Inl err
      | Inr response \<Rightarrow>
          (case readAll env response of
             Inl err \<Rightarrow> Inl err
           | Inr bytes \<Rightarrow>
               (case unmarshalComment env bytes of
                  Inl err \<Rightarrow> Inl err
                | Inr hnComm \<Rightarrow>
                    (let unescapedText = UnescapeString env (Text hnComm)
                     in Inr (hnComm\<lparr>Text := unescapedText\<rparr>)))))"

definition getThreadFromAPI :: "'f env \<Rightarrow> string \<Rightarrow> error + 'f hnThread" where
  "getThreadFromAPI env url =
     (case httpGet env url of
        Inl err \<Rightarrow> Inl err
      | Inr response \<Rightarrow>
          (case readAll env response of
             Inl err \<Rightarrow> Inl err
           | Inr bytes \<Rightarrow>
               (case unmarshalThread env bytes of
                  Inl err \<Rightarrow> Inl err
                | Inr hnThread \<Rightarrow> Inr hnThread)))"

text \<open>
  The receiving loop of \<^verbatim>\<open>fetchFromAPI\<close>. One goroutine per child has been launched; \<open>pending\<close>
  holds the URLs of those that have not delivered yet. The loop receives \<open>n\<close> times from the
  unbuffered channel; which goroutine delivers next is the choice of the schedule (its next
  number, modulo the number of pending goroutines; the first one when the schedule is used
  up). A goroutine whose fetch fails calls \<^verbatim>\<open>log.Fatalln\<close> and the process ends. A receive
  with no goroutine left would block for ever, which the Go runtime ends with status 2.
\<close>

definition pick :: "nat list \<Rightarrow> string list \<Rightarrow> nat" where
  "pick sched pending = (case sched of [] \<Rightarrow> 0 | k # _ \<Rightarrow> k mod length pending)"

fun receiveLoop ::
  "'f env \<Rightarrow> nat \<Rightarrow> nat list \<Rightarrow> string list \<Rightarrow> 'f hnComment list \<Rightarrow> 'f hnComment list proc" where
  "receiveLoop env 0 sched pending comments w = (Return comments, w)"
| "receiveLoop env (Suc n) sched pending comments w =
     (if pending = [] then (Exit 2, w)
      else
        let i = pick sched pending;
            commentURL = pending ! i;
            w' = request commentURL w
        in case getComment env commentURL of
             Inl err \<Rightarrow> Fatalln err w'
           | Inr c \<Rightarrow>
               receiveLoop env n (tl sched) (take i pending @ drop (Suc i) pending)
                 (comments @ [c]) w')"

definition fetchFromAPI :: "'f env \<Rightarrow> 'f \<Rightarrow> 'f hnComment list proc" where
  "fetchFromAPI env threadID w =
     (let threadURL = formatURL env threadID;
          w' = request threadURL w
      in case getThreadFromAPI env threadURL of
           Inl err \<Rightarrow> Fatalln err w'
         | Inr thread \<Rightarrow>
             receiveLoop env (length (Kids thread)) (schedule env)
               (map (formatURL env) (Kids thread)) [] w')"

subsection \<open>The cache and \<^verbatim>\<open>main\<close>\<close>

definition fetchFromFile :: "'f env \<Rightarrow> osFile \<Rightarrow> world \<Rightarrow> error + 'f hnComment list" where
  "fetchFromFile env f w =
     (case decodeComments env (contents f w) of
        Inl err \<Rightarrow> Inl err
      | Inr hnComments \<Rightarrow> Inr hnComments)"

definition fileExists :: "'f env \<Rightarrow> string \<Rightarrow> bool proc" where
  "fileExists env filename w =
     (case Stat env filename w of
        StatOk \<Rightarrow> (Return True, w)
      | NotExist \<Rightarrow> (Return False, w)
      | StatErr err \<Rightarrow> Fatalln err w)"

text \<open>
  The paths of the cache. (\<^verbatim>\<open>getCachedFile\<close>, which opens a cache file with \<^verbatim>\<open>os.Open\<close>, is
  declared in the source and called nowhere.)
\<close>

definition defaultDir :: "string \<Rightarrow> string" where
  "defaultDir homeDir = homeDir @ ''/'' @ ''.cache/hn-article-parser''"

definition cachedFileName :: "string \<Rightarrow> int \<Rightarrow> string" where
  "cachedFileName homeDir threadID = defaultDir homeDir @ ''/'' @ Itoa threadID @ ''.json''"

definition getComments :: "'f env \<Rightarrow> int \<Rightarrow> 'f hnComment list proc" where
  "getComments env threadID =
     andThen (fatalnWrapper (currentHomeDir env)) (\<lambda>homeDir.
     andThen (fileExists env (cachedFileName homeDir threadID)) (\<lambda>cached.
       if cached then
         andThen (logLine (''Reading cached comments from '' @ cachedFileName homeDir threadID)) (\<lambda>_.
         andThen (createOrFatal env (cachedFileName homeDir threadID)) (\<lambda>cachedFile.
         (\<lambda>w. fatalnWrapper (fetchFromFile env cachedFile w) w)))
       else
         andThen (logLine (''Cachefile '' @ cachedFileName homeDir threadID
                           @ '' not found, attempting to fetch threadID: '' @ Itoa threadID)) (\<lambda>_.
         andThen (fileExists env (defaultDir homeDir)) (\<lambda>dirExists.
         andThen (if \<not> dirExists then mkdirAllOrFatal env (defaultDir homeDir) else ret ()) (\<lambda>_.
         andThen (createOrFatal env (cachedFileName homeDir threadID)) (\<lambda>cachedFile.
         andThen (fetchFromAPI env (float64 env threadID)) (\<lambda>comments.
         andThen (encodeOrFatal env cachedFile comments) (\<lambda>_.
         ret comments))))))))"

text \<open>
  \<^verbatim>\<open>main\<close>, from the parsed flags on. The output file is opened before the comments are
  filtered.
\<close>

definition main :: "'f env \<Rightarrow> int \<Rightarrow> string \<Rightarrow> string \<Rightarrow> unit proc" where
  "main env threadID outFileName keywordsStr =
     andThen (getComments env threadID) (\<lambda>comments.
     andThen (if outFileName = []
              then andThen (logLine ''No outfile specified, defaulting to stdout'') (\<lambda>_. ret Stdout)
              else createOrFatal env outFileName) (\<lambda>outFile.
       let flt = selectFilter (unicodeLower env) keywordsStr;
           filteredComments = filterComments flt comments
       in if length filteredComments > 0
          then encodeOrFatal env outFile filteredComments
          else logLine ''No results found based on the keywords supplied. Not writing outFile''))"

section \<open>A sample environment\<close>

text \<open>
  One environment and two worlds to run the program on. The server holds three threads:
  9996333 with the children 1001 and 1002, 2000 with the child 2001, and 3000 with the
  children 3001 and 3002, of which 3002 cannot be fetched. The codec is given as tables over
  the JSON texts that occur (decoding anything else, the empty input included, is an
  error, as \<^verbatim>\<open>encoding/json\<close> reports \<^verbatim>\<open>EOF\<close> on an empty file), identifiers are integers,
  and no call of the operating system fails.
\<close>

definition itemURL :: "int \<Rightarrow> string" where
  "itemURL n = ''https://hacker-news.firebaseio.com/v0/item/'' @ Itoa n @ ''.json''"

definition sampleItems :: "(string \<times> string) list" where
  \<open>sampleItems =
     [(itemURL 9996333, ''{"kids":[1001,1002]}''),
      (itemURL 1001, ''{"by":"ann","id":1001,"parent":9996333,"text":"I &amp; you"}''),
      (itemURL 1002, ''{"by":"bob","id":1002,"parent":9996333,"text":"hiring"}''),
      (itemURL 2000, ''{"kids":[2001]}''),
      (itemURL 2001, ''{"by":"cy","id":2001,"parent":2000,"text":"hello world"}''),
      (itemURL 3000, ''{"kids":[3001,3002]}''),
      (itemURL 3001, ''{"by":"dee","id":3001,"parent":3000,"text":"first"}'')]\<close>

definition sampleThreads :: "(string \<times> int hnThread) list" where
  \<open>sampleThreads =
     [(''{"kids":[1001,1002]}'', \<lparr>Kids = [1001, 1002]\<rparr>),
      (''{"kids":[2001]}'', \<lparr>Kids = [2001]\<rparr>),
      (''{"kids":[3001,3002]}'', \<lparr>Kids = [3001, 3002]\<rparr>)]\<close>

definition ann :: "int hnComment" where
  "ann = \<lparr>By = ''ann'', ID = 1001, Parent = 9996333, Text = ''I & you''\<rparr>"

definition bob :: "int hnComment" where
  "bob = \<lparr>By = ''bob'', ID = 1002, Parent = 9996333, Text = ''hiring''\<rparr>"

definition cy :: "int hnComment" where
  "cy = \<lparr>By = ''cy'', ID = 2001, Parent = 2000, Text = ''hello world''\<rparr>"

definition dee :: "int hnComment" where
  "dee = \<lparr>By = ''dee'', ID = 3001, Parent = 3000, Text = ''first''\<rparr>"

definition sampleComments :: "(string \<times> int hnComment) list" where
  \<open>sampleComments =
     [(''{"by":"ann","id":1001,"parent":9996333,"text":"I &amp; you"}'', ann\<lparr>Text := ''I &amp; you''\<rparr>),
      (''{"by":"bob","id":1002,"parent":9996333,"text":"hiring"}'', bob),
      (''{"by":"cy","id":2001,"parent":2000,"text":"hello world"}'', cy),
      (''{"by":"dee","id":3001,"parent":3000,"text":"first"}'', dee)]\<close>

definition sampleCache :: "(string \<times> int hnComment list) list" where
  \<open>sampleCache =
     [(''[{"by":"ann","id":1001,"parent":9996333,"text":"I & you"},{"by":"bob","id":1002,"parent":9996333,"text":"hiring"}]'',
         [ann, bob]),
      (''[{"by":"bob","id":1002,"parent":9996333,"text":"hiring"},{"by":"ann","id":1001,"parent":9996333,"text":"I & you"}]'',
         [bob, ann]),
      (''[{"by":"ann","id":1001,"parent":9996333,"text":"I & you"}]'', [ann]),
      (''[{"by":"cy","id":2001,"parent":2000,"text":"hello world"}]'', [cy])]\<close>

definition lookupOr :: "string \<Rightarrow> ('k \<times> 'v) list \<Rightarrow> 'k \<Rightarrow> error + 'v" where
  "lookupOr msg table k = (case map_of table k of None \<Rightarrow> Inl (Error msg) | Some v \<Rightarrow> Inr v)"

definition sampleEnv :: "nat list \<Rightarrow> int env" where
  "sampleEnv sched =
     \<lparr>httpGet = (\<lambda>url. if url \<in> set (map fst sampleItems) then Inr url
                        else Inl (Error ''Get: connection refused'')),
      readAll = lookupOr ''unexpected EOF'' sampleItems,
      unmarshalThread = lookupOr ''unexpected end of JSON input'' sampleThreads,
      unmarshalComment = lookupOr ''unexpected end of JSON input'' sampleComments,
      decodeComments = lookupOr ''EOF'' sampleCache,
      encodeComments = lookupOr ''json: unsupported value'' (map (\<lambda>(bytes, cs). (cs, bytes)) sampleCache),
      UnescapeString = (\<lambda>s. if s = ''I &amp; you'' then ''I & you'' else s),
      formatURL = itemURL,
      float64 = (\<lambda>i. i),
      currentHomeDir = Inr ''/home/u'',
      statError = (\<lambda>_. None),
      createError = (\<lambda>_. None),
      mkdirError = (\<lambda>_. None),
      writeError = (\<lambda>_. None),
      unicodeLower = (\<lambda>s. s),
      schedule = sched\<rparr>"

definition emptyWorld :: world where
  "emptyWorld = \<lparr>files = Map.empty, dirs = {''/home/u''}, stdout = [], requests = [], logged = []\<rparr>"

definition cachedWorld :: world where
  \<open>cachedWorld =
     \<lparr>files = [''/home/u/.cache/hn-article-parser/9996333.json'' \<mapsto>
                 ''[{"by":"ann","id":1001,"parent":9996333,"text":"I & you"},{"by":"bob","id":1002,"parent":9996333,"text":"hiring"}]'',
               ''out.json'' \<mapsto> ''[previous results]''],
      dirs = {''/home/u'', ''/home/u/.cache/hn-article-parser''},
      stdout = [], requests = [], logged = []\<rparr>\<close>

section \<open>Properties of the library functions\<close>

lemma Contains_iff: "Contains s substr \<longleftrightarrow> (\<exists>ps ss. s = ps @ substr @ ss)"
proof (induction s)
  case Nil
  then show ?case by simp
next
  case (Cons c cs)
  show ?case
  proof
    assume "Contains (c # cs) substr"
    then consider "HasPrefix (c # cs) substr" | "Contains cs substr" by auto
    then show "\<exists>ps ss. c # cs = ps @ substr @ ss"
    proof cases
      case 1
      then have "c # cs = [] @ substr @ drop (length substr) (c # cs)"
        unfolding HasPrefix_def by (metis append_Nil append_take_drop_id)
      then show ?thesis by blast
    next
      case 2
      with Cons.IH obtain ps ss where "cs = ps @ substr @ ss" by blast
      then have "c # cs = (c # ps) @ substr @ ss" by simp
      then show ?thesis by blast
    qed
  next
    assume "\<exists>ps ss. c # cs = ps @ substr @ ss"
    then obtain ps ss where e: "c # cs = ps @ substr @ ss" by blast
    show "Contains (c # cs) substr"
    proof (cases ps)
      case Nil
      with e have "HasPrefix (c # cs) substr" by (simp add: HasPrefix_def)
      then show ?thesis by simp
    next
      case (Cons p ps')
      with e have "cs = ps' @ substr @ ss" by simp
      then have "Contains cs substr" using Cons.IH by blast
      then show ?thesis by simp
    qed
  qed
qed

lemma Contains_empty: "Contains s []"
  by (cases s) (simp_all add: HasPrefix_def)

lemma keywordLoop_iff: "keywordLoop lowerText K \<longleftrightarrow> (\<exists>k\<in>set K. Contains lowerText k)"
  by (induction K) auto

lemma splitOn_nonempty: "splitOn sep cur s \<noteq> []"
  by (induction s arbitrary: cur) auto

lemma splitOn_leading: "[] \<in> set (splitOn sep [] (sep # s))"
  by simp

lemma splitOn_last_trailing: "last (splitOn sep cur (s @ [sep])) = []"
  by (induction s arbitrary: cur) (simp_all add: splitOn_nonempty)

lemma splitOn_trailing: "[] \<in> set (splitOn sep cur (s @ [sep]))"
  using splitOn_last_trailing [of sep cur s] last_in_set [OF splitOn_nonempty, of sep cur "s @ [sep]"]
  by simp

lemma splitOn_doubled: "[] \<in> set (splitOn sep cur (a @ sep # sep # b))"
  by (induction a arbitrary: cur) simp_all

lemma filterLoop_filter:
  "filterLoop flt acc comments = acc @ filter (\<lambda>c. flt (Text c)) comments"
  by (induction comments arbitrary: acc) auto

section \<open>The claims about the text filter\<close>

text \<open>
  C2, as the code has it. The closure lower-cases the text only: it returns true exactly
  when one of the keywords, as given, is a substring of the lower-cased text. (For keywords
  that are already in lower case this is the case-insensitive match.)
\<close>

theorem filterTextFromKeywords_iff:
  "filterTextFromKeywords ul K T \<longleftrightarrow>
     (\<exists>k\<in>set K. \<exists>ps ss. ToLower ul T = ps @ k @ ss)"
  by (simp add: filterTextFromKeywords_def keywordLoop_iff Contains_iff)

theorem filterTextFromKeywords_iff_witness:
  "ToLower id ''I like Rust'' = ''i like '' @ ''rust'' @ [] \<and>
   filterTextFromKeywords id [''go'', ''rust''] ''I like Rust''"
proof -
  have h: "ToLower id ''I like Rust'' = ''i like '' @ ''rust'' @ []"
    by code_simp
  then have "\<exists>k\<in>set [''go'', ''rust'']. \<exists>ps ss. ToLower id ''I like Rust'' = ps @ k @ ss"
    by (metis list.set_intros(1,2))
  with h filterTextFromKeywords_iff [of id "[''go'', ''rust'']" "''I like Rust''"]
  show ?thesis by blast
qed

text \<open>
  C2, as the claim states it, fails for a keyword with an upper-case letter: for the
  keyword \<^verbatim>\<open>You\<close> and the text \<^verbatim>\<open>you\<close> the lower-cased text contains the lower-cased
  keyword, and the filter returns false.
\<close>

theorem filterTextFromKeywords_keyword_case_counterexample:
  "filterTextFromKeywords id [''You''] ''you'' = False \<and>
   Contains (ToLower id ''you'') (ToLower id ''You'') = True"
  by code_simp

text \<open>
  C7. With no keywords configured (an empty \<^verbatim>\<open>-keywords\<close> value) the filter that \<^verbatim>\<open>main\<close>
  selects accepts every text, and the filtering loop keeps every comment. This is the only
  way to have no keywords: a non-empty value always splits into at least one field.
\<close>

theorem selectFilter_empty_accepts_all:
  "selectFilter ul [] T \<and> filterComments (selectFilter ul []) comments = comments \<and>
   Split keywordsStr CHR '' '' \<noteq> []"
  by (simp add: selectFilter_def filterComments_def filterLoop_filter Split_def splitOn_nonempty)

text \<open>
  C9. A keyword list that contains the empty string accepts every text, since every
  string contains the empty string. Such a list is what \<^verbatim>\<open>main\<close> passes on when the
  \<^verbatim>\<open>-keywords\<close> value starts with a space, ends with one or has two in a row.
\<close>

theorem filterTextFromKeywords_empty_keyword:
  "([] \<in> set K \<longrightarrow> filterTextFromKeywords ul K T) \<and>
   selectFilter ul (CHR '' '' # s) T \<and>
   selectFilter ul (s @ '' '') T \<and>
   selectFilter ul (a @ ''  '' @ b) T"
proof -
  have k: "filterTextFromKeywords ul K T" if "[] \<in> set K" for K
    unfolding filterTextFromKeywords_def Let_def keywordLoop_iff
    using that Contains_empty by blast
  have "selectFilter ul (CHR '' '' # s) T"
    using k [OF splitOn_leading] by (simp add: selectFilter_def Split_def)
  moreover have "selectFilter ul (s @ '' '') T"
    using k [OF splitOn_trailing, of "CHR '' ''" "[]" s] by (simp add: selectFilter_def Split_def)
  moreover have "selectFilter ul (a @ ''  '' @ b) T"
    using k [OF splitOn_doubled, of "CHR '' ''" "[]" a b] by (simp add: selectFilter_def Split_def)
  ultimately show ?thesis using k by blast
qed

theorem filterTextFromKeywords_empty_keyword_witness:
  "[] \<in> set (Split ''go  rust'' CHR '' '') \<and>
   filterTextFromKeywords id (Split ''go  rust'' CHR '' '') ''no match here''"
proof -
  have h: "[] \<in> set (Split ''go  rust'' CHR '' '')"
    by (simp add: Split_def)
  from h filterTextFromKeywords_empty_keyword [of "Split ''go  rust'' CHR '' ''" id "''no match here''"]
  show ?thesis by blast
qed

text \<open>
  C10. The filtering loop of \<^verbatim>\<open>main\<close> returns the comments whose text the filter accepts,
  in the order of the input and unchanged: it is \<^const>\<open>filter\<close> on the list.
\<close>

theorem filterComments_is_filter:
  "filterComments flt comments = filter (\<lambda>c. flt (Text c)) comments"
  by (simp add: filterComments_def filterLoop_filter)

section \<open>The fan-out and fan-in of \<^verbatim>\<open>fetchFromAPI\<close>\<close>

lemma Fatalln_fst [simp]: "fst (Fatalln e w) = Exit 1"
  by (cases e) (simp add: Fatalln_def)

lemma Fatalln_frame [simp]:
  "files (snd (Fatalln e w)) = files w" "dirs (snd (Fatalln e w)) = dirs w"
  "stdout (snd (Fatalln e w)) = stdout w" "requests (snd (Fatalln e w)) = requests w"
  by (cases e; simp add: Fatalln_def Println_def)+

lemma request_frame [simp]:
  "files (request u w) = files w" "dirs (request u w) = dirs w"
  "stdout (request u w) = stdout w" "logged (request u w) = logged w"
  "requests (request u w) = requests w @ [u]"
  by (simp_all add: request_def)

lemma mset_remove_nth:
  "i < length xs \<Longrightarrow> mset xs = add_mset (xs ! i) (mset (take i xs @ drop (Suc i) xs))"
proof -
  assume "i < length xs"
  then have "xs = take i xs @ xs ! i # drop (Suc i) xs" by (rule id_take_nth_drop)
  then have "mset xs = mset (take i xs @ xs ! i # drop (Suc i) xs)" by simp
  then show ?thesis by simp
qed

lemma set_remove_nth:
  "i < length xs \<Longrightarrow> set xs = insert (xs ! i) (set (take i xs @ drop (Suc i) xs))"
proof -
  assume "i < length xs"
  then have "set_mset (mset xs) = set_mset (add_mset (xs ! i) (mset (take i xs @ drop (Suc i) xs)))"
    using mset_remove_nth by metis
  then show ?thesis by simp
qed

lemma pick_less: "pending \<noteq> [] \<Longrightarrow> pick sched pending < length pending"
  by (cases sched) (simp_all add: pick_def)

lemma receiveLoop_Suc:
  "pending \<noteq> [] \<Longrightarrow>
   receiveLoop env (Suc n) sched pending comments w =
     (case getComment env (pending ! pick sched pending) of
        Inl err \<Rightarrow> Fatalln err (request (pending ! pick sched pending) w)
      | Inr c \<Rightarrow>
          receiveLoop env n (tl sched)
            (take (pick sched pending) pending @ drop (Suc (pick sched pending)) pending)
            (comments @ [c]) (request (pending ! pick sched pending) w))"
  by (simp add: Let_def)

lemma receiveLoop_frame:
  "files (snd (receiveLoop env n sched pending comments w)) = files w \<and>
   dirs (snd (receiveLoop env n sched pending comments w)) = dirs w \<and>
   stdout (snd (receiveLoop env n sched pending comments w)) = stdout w"
proof (induction n arbitrary: sched pending comments w)
  case 0
  show ?case by simp
next
  case (Suc n)
  show ?case
  proof (cases "pending = []")
    case True
    then show ?thesis by simp
  next
    case False
    show ?thesis
      unfolding receiveLoop_Suc [OF False]
      by (cases "getComment env (pending ! pick sched pending)") (simp_all add: Suc.IH)
  qed
qed

lemma receiveLoop_all_delivered:
  assumes "length pending = n"
    and "\<forall>u\<in>set pending. \<exists>c. getComment env u = Inr c"
  shows "\<exists>cs w'. receiveLoop env n sched pending comments w = (Return cs, w') \<and>
           length cs = length comments + n \<and>
           mset (map Inr cs) = mset (map Inr comments) + mset (map (getComment env) pending)"
  using assms
proof (induction n arbitrary: sched pending comments w)
  case 0
  then show ?case by simp
next
  case (Suc n)
  from Suc.prems(1) have ne: "pending \<noteq> []" by auto
  let ?i = "pick sched pending"
  let ?rest = "take ?i pending @ drop (Suc ?i) pending"
  have i: "?i < length pending" using ne by (rule pick_less)
  then have mem: "pending ! ?i \<in> set pending" by simp
  with Suc.prems(2) obtain c where c: "getComment env (pending ! ?i) = Inr c" by blast
  have len: "length ?rest = n" using i Suc.prems(1) by simp
  have sub: "\<forall>u\<in>set ?rest. \<exists>c. getComment env u = Inr c"
    using Suc.prems(2) set_remove_nth [OF i] by blast
  from Suc.IH [OF len sub, of "tl sched" "comments @ [c]" "request (pending ! ?i) w"]
  obtain cs w' where r: "receiveLoop env n (tl sched) ?rest (comments @ [c]) (request (pending ! ?i) w) = (Return cs, w')"
    and l: "length cs = length (comments @ [c]) + n"
    and m: "mset (map Inr cs) = mset (map Inr (comments @ [c])) + mset (map (getComment env) ?rest)"
    by blast
  have "mset (map (getComment env) pending) =
          add_mset (getComment env (pending ! ?i)) (mset (map (getComment env) ?rest))"
    using mset_remove_nth [OF i] by (metis image_mset_add_mset mset_map)
  with m c have "mset (map Inr cs) = mset (map Inr comments) + mset (map (getComment env) pending)"
    by simp
  moreover have "receiveLoop env (Suc n) sched pending comments w = (Return cs, w')"
    unfolding receiveLoop_Suc [OF ne] using c r by simp
  moreover have "length cs = length comments + Suc n" using l by simp
  ultimately show ?case by blast
qed

lemma receiveLoop_one_failed:
  assumes "length pending = n"
    and "\<exists>u\<in>set pending. \<exists>e. getComment env u = Inl e"
  shows "fst (receiveLoop env n sched pending comments w) = Exit 1"
  using assms
proof (induction n arbitrary: sched pending comments w)
  case 0
  then show ?case by simp
next
  case (Suc n)
  from Suc.prems(1) have ne: "pending \<noteq> []" by auto
  let ?i = "pick sched pending"
  let ?rest = "take ?i pending @ drop (Suc ?i) pending"
  have i: "?i < length pending" using ne by (rule pick_less)
  have len: "length ?rest = n" using i Suc.prems(1) by simp
  show ?case
  proof (cases "getComment env (pending ! ?i)")
    case (Inl e)
    then show ?thesis unfolding receiveLoop_Suc [OF ne] by simp
  next
    case (Inr c)
    from Suc.prems(2) obtain u e where u: "u \<in> set pending" "getComment env u = Inl e" by blast
    with Inr have "u \<noteq> pending ! ?i" by auto
    with u(1) set_remove_nth [OF i] have "u \<in> set ?rest" by blast
    with u(2) have "\<exists>u\<in>set ?rest. \<exists>e. getComment env u = Inl e" by blast
    from Suc.IH [OF len this] Inr show ?thesis unfolding receiveLoop_Suc [OF ne] by simp
  qed
qed


lemma getComment_cases:
  "(\<exists>c. getComment env u = Inr c) \<or> (\<exists>e. getComment env u = Inl e)"
  by (cases "getComment env u") auto

lemma receiveLoop_Return_iff:
  assumes "length pending = n"
    and "receiveLoop env n sched pending comments w = (Return cs, w')"
  shows "(\<forall>u\<in>set pending. \<exists>c. getComment env u = Inr c) \<and>
         length cs = length comments + n \<and>
         mset (map Inr cs) = mset (map Inr comments) + mset (map (getComment env) pending)"
proof -
  have all: "\<forall>u\<in>set pending. \<exists>c. getComment env u = Inr c"
  proof (rule ccontr)
    assume "\<not> (\<forall>u\<in>set pending. \<exists>c. getComment env u = Inr c)"
    then have "\<exists>u\<in>set pending. \<exists>e. getComment env u = Inl e"
      using getComment_cases by blast
    from receiveLoop_one_failed [OF assms(1) this, of sched comments w] assms(2)
    show False by simp
  qed
  from receiveLoop_all_delivered [OF assms(1) all, of sched comments w] assms(2)
  show ?thesis using all by auto
qed

lemma fetchFromAPI_Return:
  assumes "fetchFromAPI env threadID w = (Return comments, w')"
  shows "\<exists>thread. getThreadFromAPI env (formatURL env threadID) = Inr thread \<and>
           length comments = length (Kids thread) \<and>
           mset (map Inr comments) =
             mset (map (\<lambda>kid. getComment env (formatURL env kid)) (Kids thread))"
proof (cases "getThreadFromAPI env (formatURL env threadID)")
  case (Inl e)
  with assms show ?thesis
    by (auto simp: fetchFromAPI_def Let_def dest: arg_cong [where f = fst])
next
  case (Inr thread)
  with assms have "receiveLoop env (length (Kids thread)) (schedule env)
      (map (formatURL env) (Kids thread)) [] (request (formatURL env threadID) w)
        = (Return comments, w')"
    by (simp add: fetchFromAPI_def Let_def)
  from receiveLoop_Return_iff [OF _ this] Inr show ?thesis
    by (simp add: comp_def)
qed

text \<open>
  C4. When the thread has been fetched: if no child fetch fails, \<^verbatim>\<open>fetchFromAPI\<close> returns,
  whatever the order in which the goroutines deliver; and whenever it returns, the list has
  exactly one comment for each child identifier of the thread: it is as long as the list of
  children, and as a multiset it is the multiset of the results of the child fetches
  (nothing dropped, nothing delivered twice).
\<close>

theorem fetchFromAPI_fan_in:
  assumes "getThreadFromAPI env (formatURL env threadID) = Inr thread"
  shows "((\<forall>kid\<in>set (Kids thread). \<exists>c. getComment env (formatURL env kid) = Inr c) \<longrightarrow>
            (\<exists>comments w'. fetchFromAPI env threadID w = (Return comments, w'))) \<and>
         (\<forall>comments w'. fetchFromAPI env threadID w = (Return comments, w') \<longrightarrow>
            length comments = length (Kids thread) \<and>
            mset (map Inr comments) =
              mset (map (\<lambda>kid. getComment env (formatURL env kid)) (Kids thread)))"
proof -
  let ?w = "request (formatURL env threadID) w"
  let ?pending = "map (formatURL env) (Kids thread)"
  have unfold: "fetchFromAPI env threadID w =
      receiveLoop env (length (Kids thread)) (schedule env) ?pending [] ?w"
    using assms by (simp add: fetchFromAPI_def Let_def)
  have len: "length ?pending = length (Kids thread)" by simp
  have a: "\<exists>comments w'. fetchFromAPI env threadID w = (Return comments, w')"
    if "\<forall>kid\<in>set (Kids thread). \<exists>c. getComment env (formatURL env kid) = Inr c"
  proof -
    from that have "\<forall>u\<in>set ?pending. \<exists>c. getComment env u = Inr c" by auto
    from receiveLoop_all_delivered [OF len this, of "schedule env" "[]" ?w]
    show ?thesis unfolding unfold by blast
  qed
  have b: "length comments = length (Kids thread) \<and>
           mset (map Inr comments) =
             mset (map (\<lambda>kid. getComment env (formatURL env kid)) (Kids thread))"
    if "fetchFromAPI env threadID w = (Return comments, w')" for comments w'
  proof -
    from that have "receiveLoop env (length (Kids thread)) (schedule env) ?pending [] ?w
        = (Return comments, w')" unfolding unfold .
    from receiveLoop_Return_iff [OF len this]
    show ?thesis by (simp add: comp_def)
  qed
  from a b show ?thesis by blast
qed

lemma getComment_Inr:
  "getComment env url = Inr c \<Longrightarrow>
   \<exists>response bytes hnComm. httpGet env url = Inr response \<and> readAll env response = Inr bytes \<and>
      unmarshalComment env bytes = Inr hnComm \<and>
      c = hnComm\<lparr>Text := UnescapeString env (Text hnComm)\<rparr>"
  by (auto simp: getComment_def Let_def split: sum.splits)

theorem fetchFromAPI_fan_in_witness:
  "getThreadFromAPI (sampleEnv [1]) (formatURL (sampleEnv [1]) 9996333) = Inr \<lparr>Kids = [1001, 1002]\<rparr> \<and>
   getComment (sampleEnv [1]) (formatURL (sampleEnv [1]) 1001) = Inr ann \<and>
   getComment (sampleEnv [1]) (formatURL (sampleEnv [1]) 1002) = Inr bob \<and>
   fst (fetchFromAPI (sampleEnv [1]) 9996333 emptyWorld) = Return [bob, ann] \<and>
   length [bob, ann] = length [1001, 1002 :: int] \<and>
   mset (map Inr [bob, ann]) =
     mset [getComment (sampleEnv [1]) (formatURL (sampleEnv [1]) 1001),
           getComment (sampleEnv [1]) (formatURL (sampleEnv [1]) 1002)]"
proof -
  let ?E = "sampleEnv [1]"
  have t: "getThreadFromAPI ?E (formatURL ?E 9996333) = Inr \<lparr>Kids = [1001, 1002]\<rparr>"
    by code_simp
  have a: "getComment ?E (formatURL ?E 1001) = Inr ann" by code_simp
  have b: "getComment ?E (formatURL ?E 1002) = Inr bob" by code_simp
  have r: "fst (fetchFromAPI ?E 9996333 emptyWorld) = Return [bob, ann]" by code_simp
  then have r': "fetchFromAPI ?E 9996333 emptyWorld =
      (Return [bob, ann], snd (fetchFromAPI ?E 9996333 emptyWorld))"
    by (metis prod.collapse)
  from fetchFromAPI_fan_in [OF t, of emptyWorld, THEN conjunct2, rule_format, OF r']
  have "length [bob, ann] = length [1001, 1002 :: int] \<and>
        mset (map Inr [bob, ann]) =
          mset [getComment ?E (formatURL ?E 1001), getComment ?E (formatURL ?E 1002)]"
    by simp
  with t a b r show ?thesis by blast
qed

text \<open>
  C6. Every comment that \<^verbatim>\<open>fetchFromAPI\<close> returns is the comment decoded from the response
  for one of the children of the thread, with its text replaced by the result of
  \<^verbatim>\<open>html.UnescapeString\<close> on it. These are the comments that \<^verbatim>\<open>main\<close> filters and writes.
\<close>

theorem fetchFromAPI_unescaped:
  assumes "fetchFromAPI env threadID w = (Return comments, w')"
    and "c \<in> set comments"
  shows "\<exists>thread kid response bytes hnComm.
           getThreadFromAPI env (formatURL env threadID) = Inr thread \<and>
           kid \<in> set (Kids thread) \<and>
           httpGet env (formatURL env kid) = Inr response \<and>
           readAll env response = Inr bytes \<and>
           unmarshalComment env bytes = Inr hnComm \<and>
           c = hnComm\<lparr>Text := UnescapeString env (Text hnComm)\<rparr>"
proof -
  from fetchFromAPI_Return [OF assms(1)] obtain thread where
    thread: "getThreadFromAPI env (formatURL env threadID) = Inr thread"
    and m: "mset (map Inr comments) =
          mset (map (\<lambda>kid. getComment env (formatURL env kid)) (Kids thread))"
    by blast
  from m have eq: "set (map Inr comments) =
          set (map (\<lambda>kid. getComment env (formatURL env kid)) (Kids thread))"
    by (rule mset_eq_setD)
  from assms(2) have "(Inr c :: error + _) \<in> set (map Inr comments)" by simp
  then have "Inr c \<in> set (map (\<lambda>kid. getComment env (formatURL env kid)) (Kids thread))"
    unfolding eq .
  then obtain kid where kid: "kid \<in> set (Kids thread)"
    "getComment env (formatURL env kid) = Inr c" by (auto simp: image_iff)
  from getComment_Inr [OF kid(2)] thread kid(1) show ?thesis by blast
qed

theorem fetchFromAPI_unescaped_witness:
  \<open>fetchFromAPI (sampleEnv [1]) 9996333 emptyWorld =
     (Return [bob, ann], snd (fetchFromAPI (sampleEnv [1]) 9996333 emptyWorld)) \<and>
   ann \<in> set [bob, ann] \<and>
   (\<exists>thread kid response bytes hnComm.
      getThreadFromAPI (sampleEnv [1]) (formatURL (sampleEnv [1]) 9996333) = Inr thread \<and>
      kid \<in> set (Kids thread) \<and>
      httpGet (sampleEnv [1]) (formatURL (sampleEnv [1]) kid) = Inr response \<and>
      readAll (sampleEnv [1]) response = Inr bytes \<and>
      unmarshalComment (sampleEnv [1]) bytes = Inr hnComm \<and>
      ann = hnComm\<lparr>Text := UnescapeString (sampleEnv [1]) (Text hnComm)\<rparr>) \<and>
   Text ann = ''I & you'' \<and>
   filterComments (selectFilter (unicodeLower (sampleEnv [1])) ''you'') [bob, ann] = [ann] \<and>
   stdout (snd (main (sampleEnv [1]) 9996333 [] ''you'' emptyWorld)) =
     ''[{"by":"ann","id":1001,"parent":9996333,"text":"I & you"}]'' \<and>
   stdout (snd (main (sampleEnv []) 9996333 [] ''you'' emptyWorld)) =
     ''[{"by":"ann","id":1001,"parent":9996333,"text":"I & you"}]''\<close>
proof -
  let ?E = "sampleEnv [1]"
  have "fst (fetchFromAPI ?E 9996333 emptyWorld) = Return [bob, ann]" by code_simp
  then have r: "fetchFromAPI ?E 9996333 emptyWorld =
      (Return [bob, ann], snd (fetchFromAPI ?E 9996333 emptyWorld))"
    by (metis prod.collapse)
  have m: "ann \<in> set [bob, ann]" by simp
  have f: "Text ann = ''I & you''" by code_simp
  have g: "filterComments (selectFilter (unicodeLower ?E) ''you'') [bob, ann] = [ann]"
    by code_simp
  have h: \<open>stdout (snd (main ?E 9996333 [] ''you'' emptyWorld)) =
     ''[{"by":"ann","id":1001,"parent":9996333,"text":"I & you"}]''\<close>
    by code_simp
  have i: \<open>stdout (snd (main (sampleEnv []) 9996333 [] ''you'' emptyWorld)) =
     ''[{"by":"ann","id":1001,"parent":9996333,"text":"I & you"}]''\<close>
    by code_simp
  from fetchFromAPI_unescaped [OF r m] r m f g h i show ?thesis by blast
qed

section \<open>The cache and the output file\<close>

lemma andThen_Return: "m w = (Return a, w') \<Longrightarrow> andThen m k w = k a w'"
  by (simp add: andThen_def)

lemma andThen_Exit: "fst (m w) = Exit n \<Longrightarrow> andThen m k w = (Exit n, snd (m w))"
  by (cases "m w") (auto simp: andThen_def split: outcome.splits)

lemma fetchFromAPI_frame:
  "files (snd (fetchFromAPI env threadID w)) = files w \<and>
   dirs (snd (fetchFromAPI env threadID w)) = dirs w \<and>
   stdout (snd (fetchFromAPI env threadID w)) = stdout w"
proof (cases "getThreadFromAPI env (formatURL env threadID)")
  case (Inl e)
  then show ?thesis by (simp add: fetchFromAPI_def Let_def)
next
  case (Inr thread)
  then show ?thesis
    using receiveLoop_frame [of env "length (Kids thread)" "schedule env"
        "map (formatURL env) (Kids thread)" "[]" "request (formatURL env threadID) w"]
    by (simp add: fetchFromAPI_def Let_def)
qed

lemma fetchFromAPI_child_failed:
  assumes "getThreadFromAPI env (formatURL env threadID) = Inr thread"
    and "\<exists>kid\<in>set (Kids thread). \<exists>e. getComment env (formatURL env kid) = Inl e"
  shows "fst (fetchFromAPI env threadID w) = Exit 1"
proof -
  from assms(2) have "\<exists>u\<in>set (map (formatURL env) (Kids thread)). \<exists>e. getComment env u = Inl e"
    by auto
  from receiveLoop_one_failed [OF _ this, of "length (Kids thread)"] assms(1)
  show ?thesis by (simp add: fetchFromAPI_def Let_def)
qed

lemma getComments_cache_hit:
  assumes "currentHomeDir env = Inr homeDir"
    and "Stat env (cachedFileName homeDir threadID) w = StatOk"
    and "createError env (cachedFileName homeDir threadID) = None"
  shows "getComments env threadID w =
     fatalnWrapper (decodeComments env [])
       ((Println (''Reading cached comments from '' @ cachedFileName homeDir threadID) w)
          \<lparr>files := (files w)(cachedFileName homeDir threadID \<mapsto> [])\<rparr>)"
  using assms
  by (simp add: getComments_def andThen_def fatalnWrapper_def fileExists_def logLine_def
      createOrFatal_def Create_def fetchFromFile_def contents_def Println_def split: sum.splits)

lemma fileExists_no_error:
  "statError env p = None \<Longrightarrow>
   fileExists env p w = (Return (p \<in> dom (files w) \<or> p \<in> dirs w), w)"
  by (simp add: fileExists_def Stat_def)

lemma createOrFatal_no_error:
  "createError env p = None \<Longrightarrow>
   createOrFatal env p w = (Return (File p), w\<lparr>files := (files w)(p \<mapsto> [])\<rparr>)"
  by (simp add: createOrFatal_def Create_def fatalnWrapper_def)

lemma mkdirAllOrFatal_no_error:
  "mkdirError env p = None \<Longrightarrow>
   mkdirAllOrFatal env p w = (Return (), w\<lparr>dirs := insert p (dirs w)\<rparr>)"
  by (simp add: mkdirAllOrFatal_def MkdirAll_def fatalnWrapper_def)

lemma Stat_NotExist:
  "Stat env p w = NotExist \<Longrightarrow> statError env p = None \<and> files w p = None \<and> p \<notin> dirs w"
  by (auto simp: Stat_def split: option.splits if_splits)

lemma getComments_cache_miss:
  assumes "currentHomeDir env = Inr homeDir"
    and "Stat env (cachedFileName homeDir threadID) w = NotExist"
    and "statError env (defaultDir homeDir) = None"
    and "mkdirError env (defaultDir homeDir) = None"
    and "createError env (cachedFileName homeDir threadID) = None"
  shows "\<exists>w1. files w1 = (files w)(cachedFileName homeDir threadID \<mapsto> []) \<and>
          stdout w1 = stdout w \<and>
          getComments env threadID w =
            andThen (fetchFromAPI env (float64 env threadID)) (\<lambda>comments.
              andThen (encodeOrFatal env (File (cachedFileName homeDir threadID)) comments) (\<lambda>_.
                ret comments)) w1"
proof -
  let ?name = "cachedFileName homeDir threadID"
  let ?dir = "defaultDir homeDir"
  define w0 where "w0 = Println (''Cachefile '' @ ?name
                @ '' not found, attempting to fetch threadID: '' @ Itoa threadID) w"
  have w0: "files w0 = files w" "stdout w0 = stdout w"
    by (simp_all add: w0_def Println_def)
  let ?rest = "andThen (fetchFromAPI env (float64 env threadID)) (\<lambda>comments.
              andThen (encodeOrFatal env (File ?name) comments) (\<lambda>_. ret comments))"
  from Stat_NotExist [OF assms(2)] have absent: "statError env ?name = None"
    "files w ?name = None" "?name \<notin> dirs w" by simp_all
  have 1: "fatalnWrapper (currentHomeDir env) w = (Return homeDir, w)"
    using assms(1) by (simp add: fatalnWrapper_def)
  have 2: "fileExists env ?name w = (Return False, w)"
    using absent by (simp add: fileExists_no_error domIff)
  have start: "getComments env threadID w =
      andThen (fileExists env ?dir) (\<lambda>dirExists.
         andThen (if \<not> dirExists then mkdirAllOrFatal env ?dir else ret ()) (\<lambda>_.
         andThen (createOrFatal env ?name) (\<lambda>cachedFile.
         andThen (fetchFromAPI env (float64 env threadID)) (\<lambda>comments.
         andThen (encodeOrFatal env cachedFile comments) (\<lambda>_.
         ret comments))))) w0"
    unfolding getComments_def
    by (simp add: andThen_def 1 2 logLine_def w0_def)
  show ?thesis
  proof (cases "?dir \<in> dom (files w0) \<or> ?dir \<in> dirs w0")
    case True
    have 4: "fileExists env ?dir w0 = (Return True, w0)"
      using True fileExists_no_error [OF assms(3), of w0] by simp
    have 5: "ret () w0 = (Return (), w0)" by (simp add: ret_def)
    have 6: "createOrFatal env ?name w0 = (Return (File ?name), w0\<lparr>files := (files w0)(?name \<mapsto> [])\<rparr>)"
      using assms(5) by (rule createOrFatal_no_error)
    have "getComments env threadID w = ?rest (w0\<lparr>files := (files w0)(?name \<mapsto> [])\<rparr>)"
      unfolding start
      by (simp add: andThen_def 4 5 6)
    moreover have "files (w0\<lparr>files := (files w0)(?name \<mapsto> [])\<rparr>) = (files w)(?name \<mapsto> [])"
      "stdout (w0\<lparr>files := (files w0)(?name \<mapsto> [])\<rparr>) = stdout w"
      by (simp_all add: w0)
    ultimately show ?thesis by blast
  next
    case False
    let ?w2 = "w0\<lparr>dirs := insert ?dir (dirs w0)\<rparr>"
    have 4: "fileExists env ?dir w0 = (Return False, w0)"
      using False fileExists_no_error [OF assms(3), of w0] by simp
    have 5: "mkdirAllOrFatal env ?dir w0 = (Return (), ?w2)"
      using assms(4) by (rule mkdirAllOrFatal_no_error)
    have 6: "createOrFatal env ?name ?w2 = (Return (File ?name), ?w2\<lparr>files := (files ?w2)(?name \<mapsto> [])\<rparr>)"
      using assms(5) by (rule createOrFatal_no_error)
    have "getComments env threadID w = ?rest (?w2\<lparr>files := (files ?w2)(?name \<mapsto> [])\<rparr>)"
      unfolding start
      by (simp add: andThen_def 4 5 6)
    moreover have "files (?w2\<lparr>files := (files ?w2)(?name \<mapsto> [])\<rparr>) = (files w)(?name \<mapsto> [])"
      "stdout (?w2\<lparr>files := (files ?w2)(?name \<mapsto> [])\<rparr>) = stdout w"
      by (simp_all add: w0)
    ultimately show ?thesis by blast
  qed
qed

lemma getComments_child_failure:
  assumes "currentHomeDir env = Inr homeDir"
    and "Stat env (cachedFileName homeDir threadID) w = NotExist"
    and "statError env (defaultDir homeDir) = None"
    and "mkdirError env (defaultDir homeDir) = None"
    and "createError env (cachedFileName homeDir threadID) = None"
    and "getThreadFromAPI env (formatURL env (float64 env threadID)) = Inr thread"
    and "\<exists>kid\<in>set (Kids thread). \<exists>e. getComment env (formatURL env kid) = Inl e"
  shows "files w (cachedFileName homeDir threadID) = None \<and>
         fst (getComments env threadID w) = Exit 1 \<and>
         files (snd (getComments env threadID w)) (cachedFileName homeDir threadID) = Some []"
proof -
  from Stat_NotExist [OF assms(2)] have absent: "files w (cachedFileName homeDir threadID) = None"
    by simp
  from getComments_cache_miss [OF assms(1-5)] obtain w1 where
    w1: "files w1 = (files w)(cachedFileName homeDir threadID \<mapsto> [])"
    and g: "getComments env threadID w =
            andThen (fetchFromAPI env (float64 env threadID)) (\<lambda>comments.
              andThen (encodeOrFatal env (File (cachedFileName homeDir threadID)) comments) (\<lambda>_.
                ret comments)) w1"
    by blast
  have "fst (fetchFromAPI env (float64 env threadID) w1) = Exit 1"
    using assms(6,7) by (rule fetchFromAPI_child_failed)
  then have "getComments env threadID w = (Exit 1, snd (fetchFromAPI env (float64 env threadID) w1))"
    unfolding g by (rule andThen_Exit)
  with w1 absent show ?thesis by (simp add: fetchFromAPI_frame)
qed

lemma main_no_results:
  assumes "getComments env threadID w = (Return comments, w1)"
    and "filterComments (selectFilter (unicodeLower env) keywordsStr) comments = []"
    and "outFileName \<noteq> []"
    and "createError env outFileName = None"
  shows "main env threadID outFileName keywordsStr w =
     (Return (),
      Println ''No results found based on the keywords supplied. Not writing outFile''
        (w1\<lparr>files := (files w1)(outFileName \<mapsto> [])\<rparr>))"
  using assms
  by (simp add: main_def andThen_def createOrFatal_def Create_def fatalnWrapper_def logLine_def)

section \<open>Runs of the program that the claims about the cache and the output exclude\<close>

text \<open>
  C1. Thread 9996333 has a cache file that holds the comments \<open>[ann, bob]\<close>. \<^verbatim>\<open>getComments\<close>
  opens the file with \<^verbatim>\<open>os.Create\<close>, which truncates it, and decodes the empty file: the
  process ends with status 1 after logging \<^verbatim>\<open>EOF\<close>, and the cache file is left empty. No
  request is sent. The same happens to the second of two runs that start without a cache
  file: the first fetches and writes the file, the second destroys it.
\<close>

theorem getComments_cache_hit_example:
  "fetchFromFile (sampleEnv []) (File (cachedFileName ''/home/u'' 9996333)) cachedWorld = Inr [ann, bob] \<and>
   fst (getComments (sampleEnv []) 9996333 cachedWorld) = Exit 1 \<and>
   files (snd (getComments (sampleEnv []) 9996333 cachedWorld))
     (cachedFileName ''/home/u'' 9996333) = Some [] \<and>
   requests (snd (getComments (sampleEnv []) 9996333 cachedWorld)) = [] \<and>
   logged (snd (getComments (sampleEnv []) 9996333 cachedWorld)) =
     [''Reading cached comments from /home/u/.cache/hn-article-parser/9996333.json'', ''EOF''] \<and>
   fst (getComments (sampleEnv []) 9996333 emptyWorld) = Return [ann, bob] \<and>
   fst (getComments (sampleEnv []) 9996333 (snd (getComments (sampleEnv []) 9996333 emptyWorld)))
     = Exit 1 \<and>
   files (snd (getComments (sampleEnv []) 9996333 (snd (getComments (sampleEnv []) 9996333 emptyWorld))))
     (cachedFileName ''/home/u'' 9996333) = Some []"
  by code_simp

text \<open>
  C3. Thread 3000 has no cache file, and the fetch of its child 3002 fails. The cache file
  has been created before the fetch starts, so when the process ends with status 1 the
  cache file of the thread exists and is empty; with the other delivery order as well.
\<close>

theorem getComments_child_failure_example:
  "files emptyWorld (cachedFileName ''/home/u'' 3000) = None \<and>
   getComment (sampleEnv []) (itemURL 3002) = Inl (Error ''Get: connection refused'') \<and>
   fst (getComments (sampleEnv []) 3000 emptyWorld) = Exit 1 \<and>
   files (snd (getComments (sampleEnv []) 3000 emptyWorld)) (cachedFileName ''/home/u'' 3000)
     = Some [] \<and>
   fst (getComments (sampleEnv [1]) 3000 emptyWorld) = Exit 1 \<and>
   files (snd (getComments (sampleEnv [1]) 3000 emptyWorld)) (cachedFileName ''/home/u'' 3000)
     = Some []"
  by code_simp

text \<open>
  C5. Thread 2000 has the one comment "hello world" and the keyword is \<^verbatim>\<open>xyz\<close>, so the
  filtered list is empty. \<^verbatim>\<open>main\<close> has opened the output file with \<^verbatim>\<open>os.Create\<close> before
  filtering: it logs that it is not writing the file and returns, and the file
  \<^verbatim>\<open>out.json\<close> has been created empty where there was none, and emptied where it held
  earlier results.
\<close>

theorem main_no_results_example:
  "files emptyWorld ''out.json'' = None \<and>
   fst (main (sampleEnv []) 2000 ''out.json'' ''xyz'' emptyWorld) = Return () \<and>
   files (snd (main (sampleEnv []) 2000 ''out.json'' ''xyz'' emptyWorld)) ''out.json'' = Some [] \<and>
   last (logged (snd (main (sampleEnv []) 2000 ''out.json'' ''xyz'' emptyWorld))) =
     ''No results found based on the keywords supplied. Not writing outFile'' \<and>
   files cachedWorld ''out.json'' = Some ''[previous results]'' \<and>
   fst (main (sampleEnv []) 2000 ''out.json'' ''xyz'' cachedWorld) = Return () \<and>
   files (snd (main (sampleEnv []) 2000 ''out.json'' ''xyz'' cachedWorld)) ''out.json'' = Some []"
  by code_simp

end
